theory Spec2Isabelle
  imports Main "HOL-Library.Char_ord" "HOL-Library.List_Lexorder" "HOL-Library.AList"
begin

section \<open>G-IMGTool: a shallow embedding of \<^verbatim>\<open>src/gimgtool.py\<close>\<close>

text \<open>
  The archive tool reads and writes RenderWare IMG containers: an optional 8-byte
  header (\<^verbatim>\<open>VER2\<close> plus a little-endian entry count), a table of 32-byte directory
  entries (start sector, byte size, 24-byte name) and the payloads, each aligned to a
  2048-byte sector.

  Python \<^verbatim>\<open>bytes\<close> are lists of \<^typ>\<open>char\<close> (a \<^typ>\<open>char\<close> is one byte). A Python
  \<^verbatim>\<open>str\<close> is a list of \<^typ>\<open>char\<close> as well: a character below 128 is that ASCII
  character, a character from 128 on stands for one that the ASCII codec rejects.
  Python integers are unbounded; sizes, offsets and counts are never negative and are
  \<^typ>\<open>nat\<close>, the one difference that can be negative (the overhead that
  \<^verbatim>\<open>info_img\<close> prints) is an \<^typ>\<open>int\<close>.
\<close>

subsection \<open>Bytes and \<^verbatim>\<open>struct\<close>\<close>

type_synonym bytes = "char list"

definition SECTOR_SIZE :: nat where
  "SECTOR_SIZE = 2048"

text \<open>The exceptions the tool can meet: \<^verbatim>\<open>struct.error\<close>, \<^verbatim>\<open>UnicodeEncodeError\<close>
  and \<^verbatim>\<open>OSError\<close> (of which \<^verbatim>\<open>IOError\<close> is an alias).\<close>

datatype error = StructError | UnicodeEncodeError | OSError

text \<open>The value of a little-endian byte string, and the \<open>k\<close> little-endian bytes of a
  number.\<close>

fun le_val :: "bytes \<Rightarrow> nat" where
  "le_val [] = 0"
| "le_val (b # bs) = of_char b + 256 * le_val bs"

fun le_bytes :: "nat \<Rightarrow> nat \<Rightarrow> bytes" where
  "le_bytes 0 v = []"
| "le_bytes (Suc k) v = char_of (v mod 256) # le_bytes k (v div 256)"

text \<open>\<^verbatim>\<open>struct.unpack('<I', bs)[0]\<close> raises \<^verbatim>\<open>struct.error\<close> unless \<open>bs\<close> has exactly
  four bytes; \<^verbatim>\<open>struct.pack('<I', v)\<close> raises it unless \<open>v\<close> fits in 32 bits.\<close>

definition unpack_u32 :: "bytes \<Rightarrow> error + nat" where
  "unpack_u32 bs = (if length bs = 4 then Inr (le_val bs) else Inl StructError)"

definition pack_u32 :: "nat \<Rightarrow> error + bytes" where
  "pack_u32 v = (if v < 2 ^ 32 then Inr (le_bytes 4 v) else Inl StructError)"

subsection \<open>File objects\<close>

text \<open>An open file is its content and the position of the next read or write.
  \<^verbatim>\<open>f.read(n)\<close> returns at most \<open>n\<close> bytes and fewer at the end of the file;
  \<^verbatim>\<open>f.write(bs)\<close> overwrites from the position on, after filling a gap between the end
  of the file and the position with zero bytes; writing no bytes changes nothing.\<close>

record fileobj =
  content :: bytes
  pos :: nat

definition open_bytes :: "bytes \<Rightarrow> fileobj" where
  "open_bytes bs = \<lparr>content = bs, pos = 0\<rparr>"

definition f_seek :: "nat \<Rightarrow> fileobj \<Rightarrow> fileobj" where
  "f_seek p f = f\<lparr>pos := p\<rparr>"

definition f_read :: "nat \<Rightarrow> fileobj \<Rightarrow> bytes \<times> fileobj" where
  "f_read n f =
     (let bs = take n (drop (pos f) (content f))
      in (bs, f\<lparr>pos := pos f + length bs\<rparr>))"

definition f_write :: "bytes \<Rightarrow> fileobj \<Rightarrow> fileobj" where
  "f_write bs f =
     (if bs = [] then f
      else \<lparr>content = take (pos f) (content f)
                        @ replicate (pos f - length (content f)) (CHR 0x00)
                        @ bs
                        @ drop (pos f + length bs) (content f),
            pos = pos f + length bs\<rparr>)"

text \<open>\<^verbatim>\<open>struct.unpack('<I', f.read(4))[0]\<close>, and two of them in a row (the start sector
  and the byte size of a directory entry).\<close>

definition read_u32 :: "fileobj \<Rightarrow> (error + nat) \<times> fileobj" where
  "read_u32 f = (case f_read 4 f of (bs, f') \<Rightarrow> (unpack_u32 bs, f'))"

definition read_u32_pair :: "fileobj \<Rightarrow> (error + nat \<times> nat) \<times> fileobj" where
  "read_u32_pair f =
     (case read_u32 f of
        (Inl e, f1) \<Rightarrow> (Inl e, f1)
      | (Inr a, f1) \<Rightarrow>
          (case read_u32 f1 of
             (Inl e, f2) \<Rightarrow> (Inl e, f2)
           | (Inr b, f2) \<Rightarrow> (Inr (a, b), f2)))"

subsection \<open>The file system\<close>

text \<open>
  The tool touches two kinds of paths: archive files, and directories of member files
  (the input of \<^verbatim>\<open>create_img\<close>, the output of \<^verbatim>\<open>extract_img\<close>, the scratch directory
  of the compound operations). The file system holds the regular files by path and the
  directories by path; a directory is flat, an association list from the names of its
  regular files to their contents. A member directory holds no subdirectories, and an
  archive file does not lie inside a member directory.
\<close>

type_synonym directory = "(string \<times> bytes) list"

record filesystem =
  fs_files :: "string \<rightharpoonup> bytes"
  fs_dirs :: "string \<rightharpoonup> directory"

definition isfile :: "filesystem \<Rightarrow> string \<Rightarrow> bool" where
  "isfile fs p = (fs_files fs p \<noteq> None)"

definition isdir :: "filesystem \<Rightarrow> string \<Rightarrow> bool" where
  "isdir fs p = (fs_dirs fs p \<noteq> None)"

subsection \<open>\<^verbatim>\<open>detect_img_format\<close>\<close>

datatype img_format = VER1 | VER2 | INVALID

text \<open>The body of the \<^verbatim>\<open>try\<close> block: \<open>Inr (Some r)\<close> is \<^verbatim>\<open>return r\<close>, \<open>Inr None\<close> is
  leaving the block without a return, \<open>Inl e\<close> is an exception.\<close>

definition detect_try :: "bytes \<Rightarrow> error + img_format option" where
  "detect_try store =
     (case f_read 4 (open_bytes store) of (signature, f) \<Rightarrow>
        if signature = ''VER2'' then Inr (Some VER2)
        else
          let file_size = length store in
          if file_size < 32 then Inr (Some INVALID)
          else
            (case read_u32_pair (f_seek 0 f) of
               (Inl e, f') \<Rightarrow> Inl e
             | (Inr (first_offset, first_size), f') \<Rightarrow>
                 if first_offset > 0 \<and> first_size > 0 \<and> first_size < file_size
                 then Inr (Some VER1)
                 else Inr None))"

definition detect_img_format :: "filesystem \<Rightarrow> string \<Rightarrow> img_format" where
  "detect_img_format fs img_file =
     (if \<not> isfile fs img_file then INVALID
      else
        (case fs_files fs img_file of
           None \<Rightarrow> INVALID
         | Some store \<Rightarrow>
             (case detect_try store of
                Inr (Some r) \<Rightarrow> r
              | Inr None \<Rightarrow> INVALID
              | Inl e \<Rightarrow> INVALID)))"

subsection \<open>\<^verbatim>\<open>get_entry_count\<close>\<close>

text \<open>The scan of a VER1 directory: the \<^verbatim>\<open>while offset < file_size\<close> loop, with the
  count and the offset as its state.\<close>

function v1_scan :: "bytes \<Rightarrow> nat \<Rightarrow> nat \<Rightarrow> nat" where
  "v1_scan store entry_count offset =
     (if offset < length store then
        (case fst (read_u32_pair (f_seek offset (open_bytes store))) of
           Inl e \<Rightarrow> entry_count
         | Inr (file_offset, file_size_entry) \<Rightarrow>
             if file_offset = 0 \<and> file_size_entry = 0 then entry_count
             else if file_offset > 0 \<and> file_size_entry > 0 then
               (if entry_count + 1 > 10000 then entry_count + 1
                else v1_scan store (entry_count + 1) (offset + 32))
             else entry_count)
      else entry_count)"
  by pat_completeness auto
termination
  by (relation "measure (\<lambda>(store, entry_count, offset). length store - offset)") auto

declare v1_scan.simps [simp del]

definition get_entry_count :: "filesystem \<Rightarrow> string \<Rightarrow> img_format \<Rightarrow> error + nat" where
  "get_entry_count fs img_file format_type =
     (case fs_files fs img_file of
        None \<Rightarrow> Inl OSError
      | Some store \<Rightarrow>
          (case format_type of
             VER2 \<Rightarrow> fst (read_u32 (f_seek 4 (open_bytes store)))
           | VER1 \<Rightarrow> Inr (v1_scan store 0 0)
           | INVALID \<Rightarrow> Inr 0))"

subsection \<open>Names\<close>

text \<open>\<^verbatim>\<open>bytes.strip()\<close> removes the ASCII whitespace \<^verbatim>\<open>b' \t\n\r\x0b\x0c'\<close> from both
  ends; \<^verbatim>\<open>bs.split(b'\x00')[0]\<close> is the run of bytes before the first NUL;
  \<^verbatim>\<open>bs.rstrip(b'\x00')\<close> removes the NUL bytes at the end;
  \<^verbatim>\<open>bs.decode('ascii', errors='ignore')\<close> drops every byte from 128 on;
  \<^verbatim>\<open>s.encode('ascii')\<close> raises \<^verbatim>\<open>UnicodeEncodeError\<close> on a character from 128 on;
  \<^verbatim>\<open>bs.ljust(n, c)\<close> pads on the right.\<close>

definition is_space :: "char \<Rightarrow> bool" where
  "is_space c = (c \<in> set [CHR 0x20, CHR 0x09, CHR 0x0A, CHR 0x0D, CHR 0x0B, CHR 0x0C])"

definition strip :: "bytes \<Rightarrow> bytes" where
  "strip bs = rev (dropWhile is_space (rev (dropWhile is_space bs)))"

definition split_nul_first :: "bytes \<Rightarrow> bytes" where
  "split_nul_first bs = takeWhile (\<lambda>c. c \<noteq> CHR 0x00) bs"

definition rstrip_nul :: "bytes \<Rightarrow> bytes" where
  "rstrip_nul bs = rev (dropWhile (\<lambda>c. c = CHR 0x00) (rev bs))"

definition is_ascii :: "char \<Rightarrow> bool" where
  "is_ascii c = ((of_char c :: nat) < 128)"

definition decode_ascii_ignore :: "bytes \<Rightarrow> string" where
  "decode_ascii_ignore bs = filter is_ascii bs"

definition encode_ascii :: "string \<Rightarrow> error + bytes" where
  "encode_ascii s = (if list_all is_ascii s then Inr s else Inl UnicodeEncodeError)"

definition ljust :: "nat \<Rightarrow> char \<Rightarrow> bytes \<Rightarrow> bytes" where
  "ljust n c bs = bs @ replicate (n - length bs) c"

text \<open>The name of a directory entry as \<^verbatim>\<open>extract_img\<close> decodes it (line 145) and as
  \<^verbatim>\<open>list_img_filtered\<close> decodes it (line 471).\<close>

definition decode_name_extract :: "bytes \<Rightarrow> string" where
  "decode_name_extract filename_bytes =
     decode_ascii_ignore (strip (split_nul_first filename_bytes))"

definition decode_name_list :: "bytes \<Rightarrow> string" where
  "decode_name_list filename_bytes = decode_ascii_ignore (rstrip_nul filename_bytes)"

text \<open>\<^verbatim>\<open>str.upper()\<close> and \<^verbatim>\<open>str.lower()\<close> on the ASCII letters: bit 5 of the
  character is cleared or set.\<close>

definition to_upper :: "char \<Rightarrow> char" where
  "to_upper c =
     (if (97 :: nat) \<le> of_char c \<and> (of_char c :: nat) \<le> 122
      then (case c of Char b0 b1 b2 b3 b4 b5 b6 b7 \<Rightarrow> Char b0 b1 b2 b3 b4 False b6 b7)
      else c)"



subsection \<open>\<^verbatim>\<open>extract_img\<close>\<close>

text \<open>A file can be created in a flat directory under a name that is one path
  component; \<^verbatim>\<open>open(os.path.join(output_dir, filename), 'wb')\<close> raises an
  \<^verbatim>\<open>OSError\<close> for the others.\<close>

definition valid_filename :: "string \<Rightarrow> bool" where
  "valid_filename name =
     (name \<noteq> [] \<and> name \<noteq> ''.'' \<and> name \<noteq> ''..''
      \<and> CHR ''/'' \<notin> set name \<and> CHR 0x00 \<notin> set name)"

definition write_file :: "directory \<Rightarrow> string \<Rightarrow> bytes \<Rightarrow> error + directory" where
  "write_file d name file_data =
     (if valid_filename name then Inr (AList.update name file_data d) else Inl OSError)"

text \<open>\<^verbatim>\<open>os.makedirs(p, exist_ok=True)\<close>.\<close>

definition makedirs :: "filesystem \<Rightarrow> string \<Rightarrow> error + filesystem" where
  "makedirs fs p =
     (if isfile fs p then Inl OSError
      else if isdir fs p then Inr fs
      else Inr (fs\<lparr>fs_dirs := (fs_dirs fs)(p \<mapsto> [])\<rparr>))"

text \<open>The body of the \<^verbatim>\<open>try\<close> block of one iteration (it starts with a seek, so the
  position the last iteration left does not matter), and the iteration with its
  \<^verbatim>\<open>except (struct.error, IOError): continue\<close>.\<close>

definition extract_entry_try :: "bytes \<Rightarrow> nat \<Rightarrow> directory \<Rightarrow> nat \<Rightarrow> error + directory" where
  "extract_entry_try store dir_start out i =
     (let dir_offset = dir_start + i * 32 in
      case read_u32_pair (f_seek dir_offset (open_bytes store)) of
        (Inl e, f) \<Rightarrow> Inl e
      | (Inr (file_offset, file_size), f) \<Rightarrow>
          (case f_read 24 f of (filename_bytes, f) \<Rightarrow>
             let filename = decode_name_extract filename_bytes in
             if filename = [] \<or> file_size = 0 then Inr out
             else
               let byte_offset = file_offset * SECTOR_SIZE in
               (case f_read file_size (f_seek byte_offset f) of (file_data, f) \<Rightarrow>
                  write_file out filename file_data)))"

definition extract_entry :: "bytes \<Rightarrow> nat \<Rightarrow> directory \<Rightarrow> nat \<Rightarrow> directory" where
  "extract_entry store dir_start out i =
     (case extract_entry_try store dir_start out i of
        Inl e \<Rightarrow> out
      | Inr out' \<Rightarrow> out')"

definition extract_img :: "filesystem \<Rightarrow> string \<Rightarrow> string \<Rightarrow> (error + bool) \<times> filesystem" where
  "extract_img fs img_file output_dir =
     (if \<not> isfile fs img_file then (Inr False, fs)
      else
        (case makedirs fs output_dir of
           Inl e \<Rightarrow> (Inl e, fs)
         | Inr fs1 \<Rightarrow>
             let format_type = detect_img_format fs1 img_file in
             if format_type = INVALID then (Inr False, fs1)
             else
               (case get_entry_count fs1 img_file format_type of
                  Inl e \<Rightarrow> (Inl e, fs1)
                | Inr entry_count \<Rightarrow>
                    let dir_start = (if format_type = VER2 then 8 else 0) in
                    (case (fs_files fs1 img_file, fs_dirs fs1 output_dir) of
                       (Some store, Some out) \<Rightarrow>
                         (Inr True,
                          fs1\<lparr>fs_dirs := (fs_dirs fs1)(output_dir \<mapsto>
                            foldl (extract_entry store dir_start) out [0..<entry_count])\<rparr>)
                     | _ \<Rightarrow> (Inl OSError, fs1)))))"

subsection \<open>\<^verbatim>\<open>create_img\<close>\<close>

definition format_of_token :: "string \<Rightarrow> img_format option" where
  "format_of_token format_type =
     (let format_type = map to_upper format_type in
      if format_type = ''VER1'' then Some VER1
      else if format_type = ''VER2'' then Some VER2
      else None)"

definition header_size_of :: "img_format \<Rightarrow> nat" where
  "header_size_of format_type = (if format_type = VER2 then 8 else 0)"

definition dir_size_of :: "img_format \<Rightarrow> nat \<Rightarrow> nat" where
  "dir_size_of format_type n = header_size_of format_type + n * 32"

definition data_start_sector_of :: "img_format \<Rightarrow> nat \<Rightarrow> nat" where
  "data_start_sector_of format_type n =
     (dir_size_of format_type n + SECTOR_SIZE - 1) div SECTOR_SIZE"

definition sectors_needed :: "nat \<Rightarrow> nat" where
  "sectors_needed filesize = (filesize + SECTOR_SIZE - 1) div SECTOR_SIZE"

definition getsize :: "directory \<Rightarrow> string \<Rightarrow> error + nat" where
  "getsize d name =
     (case map_of d name of None \<Rightarrow> Inl OSError | Some file_data \<Rightarrow> Inr (length file_data))"

text \<open>One directory entry (lines 224 to 228): each \<^verbatim>\<open>f.write\<close> happens once its
  argument has been computed, so an exception leaves the earlier fields written.\<close>

definition write_entry ::
  "img_format \<Rightarrow> nat \<Rightarrow> nat \<Rightarrow> nat \<Rightarrow> string \<Rightarrow> fileobj \<Rightarrow> (error + unit) \<times> fileobj" where
  "write_entry format_type i current_sector filesize filename f =
     (let dir_offset = (if format_type = VER2 then 8 else 0) + i * 32;
          f = f_seek dir_offset f in
      case pack_u32 current_sector of
        Inl e \<Rightarrow> (Inl e, f)
      | Inr sector_bytes \<Rightarrow>
          let f = f_write sector_bytes f in
          (case pack_u32 filesize of
             Inl e \<Rightarrow> (Inl e, f)
           | Inr size_bytes \<Rightarrow>
               let f = f_write size_bytes f in
               (case encode_ascii filename of
                  Inl e \<Rightarrow> (Inl e, f)
                | Inr name_bytes \<Rightarrow>
                    (Inr (), f_write (ljust 24 (CHR 0x00) (take 24 name_bytes)) f))))"

text \<open>The loop over \<^verbatim>\<open>enumerate(files)\<close>; it returns \<^verbatim>\<open>file_info\<close>, the path (here
  the name in the input directory), the size and the start sector of every file.\<close>

type_synonym file_info = "string \<times> nat \<times> nat"

fun write_directory ::
  "img_format \<Rightarrow> directory \<Rightarrow> string list \<Rightarrow> nat \<Rightarrow> nat \<Rightarrow> fileobj
     \<Rightarrow> (error + file_info list) \<times> fileobj" where
  "write_directory format_type d [] i current_sector f = (Inr [], f)"
| "write_directory format_type d (filepath # rest) i current_sector f =
     (case getsize d filepath of
        Inl e \<Rightarrow> (Inl e, f)
      | Inr filesize \<Rightarrow>
          let filename = (if length filepath > 24 then take 24 filepath else filepath) in
          (case write_entry format_type i current_sector filesize filename f of
             (Inl e, f) \<Rightarrow> (Inl e, f)
           | (Inr u, f) \<Rightarrow>
               (case write_directory format_type d rest (i + 1)
                       (current_sector + sectors_needed filesize) f of
                  (Inl e, f) \<Rightarrow> (Inl e, f)
                | (Inr infos, f) \<Rightarrow>
                    (Inr ((filepath, filesize, current_sector) # infos), f))))"

text \<open>The loop that writes the payloads, each padded to the next sector boundary.\<close>

fun write_data :: "directory \<Rightarrow> file_info list \<Rightarrow> fileobj \<Rightarrow> (error + unit) \<times> fileobj" where
  "write_data d [] f = (Inr (), f)"
| "write_data d ((filepath, filesize, sector) # rest) f =
     (case map_of d filepath of
        None \<Rightarrow> (Inl OSError, f)
      | Some file_data \<Rightarrow>
          let f = f_write file_data f;
              padding = SECTOR_SIZE - (filesize mod SECTOR_SIZE);
              f = (if padding \<noteq> SECTOR_SIZE then f_write (replicate padding (CHR 0x00)) f
                   else f)
          in write_data d rest f)"

text \<open>The header, for VER2 only (lines 201 to 203).\<close>

definition write_header :: "img_format \<Rightarrow> nat \<Rightarrow> fileobj \<Rightarrow> (error + unit) \<times> fileobj" where
  "write_header format_type n f =
     (if format_type = VER2 then
        (let f = f_write ''VER2'' f in
         case pack_u32 n of
           Inl e \<Rightarrow> (Inl e, f)
         | Inr count_bytes \<Rightarrow> (Inr (), f_write count_bytes f))
      else (Inr (), f))"

text \<open>The body of \<^verbatim>\<open>with open(img_file, 'wb') as f\<close>, from the empty file.\<close>

definition create_body ::
  "img_format \<Rightarrow> directory \<Rightarrow> string list \<Rightarrow> fileobj \<Rightarrow> (error + unit) \<times> fileobj" where
  "create_body format_type d file_names f =
     (let header_size = header_size_of format_type;
          dir_size = dir_size_of format_type (length file_names);
          data_start_sector = data_start_sector_of format_type (length file_names)
      in
      case write_header format_type (length file_names) f of
        (Inl e, f) \<Rightarrow> (Inl e, f)
      | (Inr u, f) \<Rightarrow>
          let f = f_write (replicate (dir_size - header_size) (CHR 0x00)) f in
          (case write_directory format_type d file_names 0 data_start_sector f of
             (Inl e, f) \<Rightarrow> (Inl e, f)
           | (Inr file_info, f) \<Rightarrow>
               let data_start_byte = data_start_sector * SECTOR_SIZE;
                   f = f_seek data_start_byte f
               in write_data d file_info f))"

text \<open>\<^verbatim>\<open>create_img\<close>: the files of the input directory in sorted order. Opening the
  archive for writing truncates it, and what was written stays when an exception ends
  the \<^verbatim>\<open>with\<close> block.\<close>

definition create_img ::
  "filesystem \<Rightarrow> string \<Rightarrow> string \<Rightarrow> string \<Rightarrow> (error + bool) \<times> filesystem" where
  "create_img fs format_type img_file input_dir =
     (case fs_dirs fs input_dir of
        None \<Rightarrow> (Inr False, fs)
      | Some d \<Rightarrow>
          (case format_of_token format_type of
             None \<Rightarrow> (Inr False, fs)
           | Some format_type \<Rightarrow>
               let file_names = sort (map fst d) in
               if file_names = [] then (Inr False, fs)
               else if isdir fs img_file then (Inl OSError, fs)
               else
                 (case create_body format_type d file_names (open_bytes []) of
                    (r, f) \<Rightarrow>
                      ((case r of Inl e \<Rightarrow> Inl e | Inr u \<Rightarrow> Inr True),
                       fs\<lparr>fs_files := (fs_files fs)(img_file \<mapsto> content f)\<rparr>))))"

subsection \<open>\<^verbatim>\<open>rename_in_img\<close>\<close>



subsection \<open>\<^verbatim>\<open>list_img_filtered\<close>\<close>

text \<open>The rows that the listing prints: name, size and sector. The pattern matcher
  \<^verbatim>\<open>fnmatch.fnmatch\<close> is a parameter.\<close>

definition list_entry_try ::
  "(string \<Rightarrow> string \<Rightarrow> bool) \<Rightarrow> string option \<Rightarrow> bytes \<Rightarrow> nat \<Rightarrow> nat
     \<Rightarrow> error + (string \<times> nat \<times> nat) option" where
  "list_entry_try fnmatch filter_pattern store dir_start i =
     (let dir_offset = dir_start + i * 32 in
      case read_u32_pair (f_seek dir_offset (open_bytes store)) of
        (Inl e, f) \<Rightarrow> Inl e
      | (Inr (file_offset, file_size), f) \<Rightarrow>
          (case f_read 24 f of (filename_bytes, f) \<Rightarrow>
             let filename = decode_name_list filename_bytes in
             if filename = [] \<or> file_size = 0 then Inr None
             else
               (case filter_pattern of
                  None \<Rightarrow> Inr (Some (filename, file_size, file_offset))
                | Some pat \<Rightarrow>
                    if pat \<noteq> [] \<and> \<not> fnmatch filename pat then Inr None
                    else Inr (Some (filename, file_size, file_offset)))))"

definition list_entry ::
  "(string \<Rightarrow> string \<Rightarrow> bool) \<Rightarrow> string option \<Rightarrow> bytes \<Rightarrow> nat
     \<Rightarrow> (string \<times> nat \<times> nat) list \<Rightarrow> nat \<Rightarrow> (string \<times> nat \<times> nat) list" where
  "list_entry fnmatch filter_pattern store dir_start rows i =
     (case list_entry_try fnmatch filter_pattern store dir_start i of
        Inl e \<Rightarrow> rows
      | Inr None \<Rightarrow> rows
      | Inr (Some row) \<Rightarrow> rows @ [row])"

definition list_img_filtered ::
  "(string \<Rightarrow> string \<Rightarrow> bool) \<Rightarrow> filesystem \<Rightarrow> string \<Rightarrow> string option
     \<Rightarrow> error + bool \<times> (string \<times> nat \<times> nat) list" where
  "list_img_filtered fnmatch fs img_file filter_pattern =
     (case fs_files fs img_file of
        None \<Rightarrow> Inr (False, [])
      | Some store \<Rightarrow>
          let format_type = detect_img_format fs img_file in
          if format_type = INVALID then Inr (False, [])
          else
            (case get_entry_count fs img_file format_type of
               Inl e \<Rightarrow> Inl e
             | Inr entry_count \<Rightarrow>
                 let dir_start = (if format_type = VER2 then 8 else 0) in
                 Inr (True,
                      foldl (list_entry fnmatch filter_pattern store dir_start) []
                        [0..<entry_count])))"

subsection \<open>\<^verbatim>\<open>info_img\<close>\<close>

text \<open>The figures that the report prints. The efficiency line is printed only when
  its divisor is positive.\<close>

record img_info =
  info_size :: nat
  info_format :: img_format
  info_entries :: nat
  info_header_size :: nat
  info_dir_size :: nat
  info_data_start_sector :: nat
  info_data_start_byte :: nat
  info_total_data_size :: nat
  info_overhead :: int
  info_efficiency :: "nat option"

text \<open>One iteration of the loop over the directory (lines 530 to 537). Its state is
  the two variables it assigns: \<^verbatim>\<open>file_size\<close>, which held the size of the archive
  before the loop, and \<^verbatim>\<open>total_data_size\<close>.\<close>

definition info_step :: "bytes \<Rightarrow> nat \<Rightarrow> nat \<times> nat \<Rightarrow> nat \<Rightarrow> nat \<times> nat" where
  "info_step store dir_start st i =
     (case st of (file_size, total_data_size) \<Rightarrow>
        let dir_offset = dir_start + i * 32 + 4 in
        (case fst (read_u32 (f_seek dir_offset (open_bytes store))) of
           Inl e \<Rightarrow> (file_size, total_data_size)
         | Inr file_size \<Rightarrow> (file_size, total_data_size + file_size)))"

definition info_img :: "filesystem \<Rightarrow> string \<Rightarrow> error + bool \<times> img_info option" where
  "info_img fs img_file =
     (case fs_files fs img_file of
        None \<Rightarrow> Inr (False, None)
      | Some store \<Rightarrow>
          let file_size = length store;
              format_type = detect_img_format fs img_file in
          if format_type = INVALID then Inr (False, None)
          else
            (case get_entry_count fs img_file format_type of
               Inl e \<Rightarrow> Inl e
             | Inr entry_count \<Rightarrow>
                 let header_size = (if format_type = VER2 then 8 else 0);
                     dir_size = header_size + entry_count * 32;
                     data_start_sector = (dir_size + SECTOR_SIZE - 1) div SECTOR_SIZE;
                     data_start_byte = data_start_sector * SECTOR_SIZE;
                     dir_start = header_size
                 in
                 (case foldl (info_step store dir_start) (file_size, 0) [0..<entry_count] of
                    (file_size', total_data_size) \<Rightarrow>
                      Inr (True, Some
                        \<lparr>info_size = file_size,
                         info_format = format_type,
                         info_entries = entry_count,
                         info_header_size = header_size,
                         info_dir_size = dir_size,
                         info_data_start_sector = data_start_sector,
                         info_data_start_byte = data_start_byte,
                         info_total_data_size = total_data_size,
                         info_overhead = int file_size' - int total_data_size,
                         info_efficiency =
                           (if file_size' > 0
                            then Some ((total_data_size * 100) div file_size')
                            else None)\<rparr>))))"

subsection \<open>Member sets and the layout of a built archive\<close>

text \<open>
  The sectors that a list of members occupies, and the members that a build followed
  by an extraction gives back unchanged: a name that is one path component of at most
  24 ASCII characters with no whitespace at either end, and a payload that is not
  empty and whose size fits in 32 bits.
\<close>

definition total_sectors :: "(string \<times> bytes) list \<Rightarrow> nat" where
  "total_sectors ms = sum_list (map (\<lambda>m. sectors_needed (length (snd m))) ms)"

definition member_ok :: "string \<times> bytes \<Rightarrow> bool" where
  "member_ok m =
     (case m of (name, file_data) \<Rightarrow>
        length name \<le> 24 \<and> list_all is_ascii name \<and> valid_filename name
        \<and> strip name = name \<and> file_data \<noteq> [] \<and> length file_data < 2 ^ 32)"

text \<open>
  The bytes of an archive as a function of its members, in the order of the directory:
  the header, the entries with their running start sectors, the zero bytes up to the
  first data sector, and the payloads, each padded to a sector boundary. These functions state
  what \<^verbatim>\<open>create_img\<close> writes; \<open>infos\<close> is the list \<^verbatim>\<open>file_info\<close> it collects, and
  \<open>sector_of\<close> is the start sector of the member at an index.
\<close>

definition entry_bytes :: "nat \<Rightarrow> nat \<Rightarrow> string \<Rightarrow> bytes" where
  "entry_bytes sector filesize filename =
     le_bytes 4 sector @ le_bytes 4 filesize @ ljust 24 (CHR 0x00) (take 24 filename)"

fun dir_bytes :: "(string \<times> bytes) list \<Rightarrow> nat \<Rightarrow> bytes" where
  "dir_bytes [] cur = []"
| "dir_bytes ((name, file_data) # ms) cur =
     entry_bytes cur (length file_data) (take 24 name)
     @ dir_bytes ms (cur + sectors_needed (length file_data))"

fun infos :: "(string \<times> bytes) list \<Rightarrow> nat \<Rightarrow> file_info list" where
  "infos [] cur = []"
| "infos ((name, file_data) # ms) cur =
     (name, length file_data, cur) # infos ms (cur + sectors_needed (length file_data))"

definition padded :: "bytes \<Rightarrow> bytes" where
  "padded file_data =
     file_data
     @ replicate ((SECTOR_SIZE - length file_data mod SECTOR_SIZE) mod SECTOR_SIZE) (CHR 0x00)"

definition payload :: "(string \<times> bytes) list \<Rightarrow> bytes" where
  "payload ms = concat (map (\<lambda>m. padded (snd m)) ms)"

definition header_bytes :: "img_format \<Rightarrow> nat \<Rightarrow> bytes" where
  "header_bytes format_type n = (if format_type = VER2 then ''VER2'' @ le_bytes 4 n else [])"

definition archive_bytes :: "img_format \<Rightarrow> (string \<times> bytes) list \<Rightarrow> bytes" where
  "archive_bytes format_type ms =
     header_bytes format_type (length ms)
     @ dir_bytes ms (data_start_sector_of format_type (length ms))
     @ (if payload ms = [] then []
        else replicate (data_start_sector_of format_type (length ms) * SECTOR_SIZE
                          - dir_size_of format_type (length ms)) (CHR 0x00)
             @ payload ms)"

definition sector_of :: "img_format \<Rightarrow> (string \<times> bytes) list \<Rightarrow> nat \<Rightarrow> nat" where
  "sector_of format_type ms i =
     data_start_sector_of format_type (length ms) + total_sectors (take i ms)"

subsection \<open>Example data\<close>

text \<open>A 32-byte directory record with start sector 1 and size 1, a 24-byte name field
  with bytes after its first NUL, and the archive that holds \<^verbatim>\<open>a.dat\<close> (\<^verbatim>\<open>abc\<close>) and
  \<^verbatim>\<open>b.dat\<close> (\<^verbatim>\<open>de\<close>) in the VER2 layout.\<close>

definition v1_record :: bytes where
  "v1_record =
     [CHR 0x01, CHR 0x00, CHR 0x00, CHR 0x00, CHR 0x01, CHR 0x00, CHR 0x00, CHR 0x00]
     @ ''a'' @ replicate 23 (CHR 0x00)"

definition name_field :: bytes where
  "name_field = ''a.dat'' @ [CHR 0x00] @ ''xyz'' @ replicate 15 (CHR 0x00)"

definition small_store :: bytes where
  "small_store =
     ''VER2'' @ [CHR 0x02, CHR 0x00, CHR 0x00, CHR 0x00]
     @ [CHR 0x01, CHR 0x00, CHR 0x00, CHR 0x00, CHR 0x03, CHR 0x00, CHR 0x00, CHR 0x00]
     @ ''a.dat'' @ replicate 19 (CHR 0x00)
     @ [CHR 0x02, CHR 0x00, CHR 0x00, CHR 0x00, CHR 0x02, CHR 0x00, CHR 0x00, CHR 0x00]
     @ ''b.dat'' @ replicate 19 (CHR 0x00)
     @ replicate 1976 (CHR 0x00)
     @ ''abc'' @ replicate 2045 (CHR 0x00)
     @ ''de'' @ replicate 2046 (CHR 0x00)"

definition small_fs :: filesystem where
  "small_fs = \<lparr>fs_files = [''small.img'' \<mapsto> small_store], fs_dirs = Map.empty\<rparr>"

definition big_fs :: filesystem where
  "big_fs =
     \<lparr>fs_files = [''big.img'' \<mapsto> concat (replicate 10001 v1_record)],
      fs_dirs = Map.empty\<rparr>"







definition spaced_fs :: filesystem where
  "spaced_fs = \<lparr>fs_files = Map.empty, fs_dirs = [''in'' \<mapsto> [('' a'', ''x'')]]\<rparr>"

section \<open>Properties\<close>

subsection \<open>Packing, reading and detection\<close>

lemma le_val_le_bytes: "v < 256 ^ k \<Longrightarrow> le_val (le_bytes k v) = v"
proof (induction k arbitrary: v)
  case 0
  then show ?case by simp
next
  case (Suc k)
  have "v div 256 < 256 ^ k"
    using Suc.prems by (simp add: less_mult_imp_div_less mult.commute)
  then have "le_val (le_bytes k (v div 256)) = v div 256"
    by (rule Suc.IH)
  then show ?case by simp
qed

lemma length_le_bytes [simp]: "length (le_bytes k v) = k"
  by (induction k arbitrary: v) simp_all

lemma unpack_le_bytes: "v < 2 ^ 32 \<Longrightarrow> unpack_u32 (le_bytes 4 v) = Inr v"
  using le_val_le_bytes [of v 4] by (simp add: unpack_u32_def)

lemma read_u32_at:
  "fst (read_u32 (f_seek p (open_bytes s))) = unpack_u32 (take 4 (drop p s))"
  by (simp add: read_u32_def f_read_def f_seek_def open_bytes_def Let_def)

lemma read_u32_pair_ok:
  "pos f + 8 \<le> length (content f) \<Longrightarrow>
   read_u32_pair f =
     (Inr (le_val (take 4 (drop (pos f) (content f))),
           le_val (take 4 (drop (pos f + 4) (content f)))),
      f\<lparr>pos := pos f + 8\<rparr>)"
  by (auto simp: read_u32_pair_def read_u32_def f_read_def unpack_u32_def Let_def min_def)

lemma read_u32_pair_short:
  "length (content f) < pos f + 8 \<Longrightarrow> fst (read_u32_pair f) = Inl StructError"
  by (auto simp: read_u32_pair_def read_u32_def f_read_def unpack_u32_def Let_def min_def
           split: prod.splits sum.splits)

lemma detect_try_eq:
  "detect_try store =
     (if take 4 store = ''VER2'' then Inr (Some VER2)
      else if length store < 32 then Inr (Some INVALID)
      else if 0 < le_val (take 4 store) \<and> 0 < le_val (take 4 (drop 4 store))
              \<and> le_val (take 4 (drop 4 store)) < length store
      then Inr (Some VER1) else Inr None)"
  by (simp add: detect_try_def f_read_def open_bytes_def f_seek_def Let_def read_u32_pair_ok)

lemma detect_img_format_eq:
  "detect_img_format fs img_file =
     (case fs_files fs img_file of
        None \<Rightarrow> INVALID
      | Some store \<Rightarrow>
          if take 4 store = ''VER2'' then VER2
          else if length store < 32 then INVALID
          else if 0 < le_val (take 4 store) \<and> 0 < le_val (take 4 (drop 4 store))
                  \<and> le_val (take 4 (drop 4 store)) < length store
          then VER1 else INVALID)"
  by (simp add: detect_img_format_def isfile_def detect_try_eq split: option.splits)

lemma le_val_zero: "list_all (\<lambda>b. b = CHR 0x00) bs \<Longrightarrow> le_val bs = 0"
  by (induction bs) simp_all

text \<open>
  Claim C10. A path that does not name an existing regular file (a missing path, or a
  directory) is classified \<open>INVALID\<close>: the detector returns a format for every path
  and raises nothing.
\<close>

theorem detect_not_a_file_invalid:
  "\<not> isfile fs img_file \<Longrightarrow> detect_img_format fs img_file = INVALID"
  by (simp add: detect_img_format_def)

theorem detect_not_a_file_invalid_witness:
  "\<not> isfile \<lparr>fs_files = Map.empty, fs_dirs = [''models'' \<mapsto> []]\<rparr> ''models''
   \<and> detect_img_format \<lparr>fs_files = Map.empty, fs_dirs = [''models'' \<mapsto> []]\<rparr> ''models''
       = INVALID"
  using detect_not_a_file_invalid
    [of "\<lparr>fs_files = Map.empty, fs_dirs = [''models'' \<mapsto> []]\<rparr>" "''models''"]
  by (simp add: isfile_def)

text \<open>
  Claim C4, as the code has it. The magic is tested before the size: a store of fewer
  than 32 bytes that begins with \<^verbatim>\<open>VER2\<close> is classified \<open>VER2\<close>. Every store of zero
  bytes only, and every store of fewer than 32 bytes that does not begin with the magic,
  is classified \<open>INVALID\<close>.
\<close>

theorem detect_short_magic_is_ver2:
  "length ''VER2'' < 32 \<and>
   detect_img_format \<lparr>fs_files = [''a.img'' \<mapsto> ''VER2''], fs_dirs = Map.empty\<rparr> ''a.img''
     = VER2"
  by (simp add: detect_img_format_eq)

theorem detect_zero_or_short_invalid:
  assumes "fs_files fs img_file = Some store"
    and "list_all (\<lambda>b. b = CHR 0x00) store \<or> (length store < 32 \<and> take 4 store \<noteq> ''VER2'')"
  shows "detect_img_format fs img_file = INVALID"
proof -
  have ver2: "take 4 store \<noteq> ''VER2''"
  proof
    assume v: "take 4 store = ''VER2''"
    then have "list_all (\<lambda>b. b = CHR 0x00) store \<Longrightarrow> False"
      by (cases store) auto
    with assms(2) v show False by auto
  qed
  show ?thesis
  proof (cases "length store < 32")
    case True
    with ver2 assms(1) show ?thesis by (simp add: detect_img_format_eq)
  next
    case False
    with assms(2) have z: "list_all (\<lambda>b. b = CHR 0x00) store" by simp
    then have "list_all (\<lambda>b. b = CHR 0x00) (take 4 store)"
      by (simp add: list_all_iff) (meson in_set_takeD)
    then have "le_val (take 4 store) = 0" by (rule le_val_zero)
    with ver2 assms(1) show ?thesis by (simp add: detect_img_format_eq)
  qed
qed

theorem detect_zero_or_short_invalid_witness:
  "detect_img_format
     \<lparr>fs_files = [''z.img'' \<mapsto> replicate 64 (CHR 0x00), ''s.img'' \<mapsto> ''VER1abc''],
      fs_dirs = Map.empty\<rparr> ''z.img'' = INVALID
   \<and> detect_img_format
     \<lparr>fs_files = [''z.img'' \<mapsto> replicate 64 (CHR 0x00), ''s.img'' \<mapsto> ''VER1abc''],
      fs_dirs = Map.empty\<rparr> ''s.img'' = INVALID"
  using detect_zero_or_short_invalid
    [of "\<lparr>fs_files = [''z.img'' \<mapsto> replicate 64 (CHR 0x00), ''s.img'' \<mapsto> ''VER1abc''],
          fs_dirs = Map.empty\<rparr>" "''z.img''" "replicate 64 (CHR 0x00)"]
    detect_zero_or_short_invalid
    [of "\<lparr>fs_files = [''z.img'' \<mapsto> replicate 64 (CHR 0x00), ''s.img'' \<mapsto> ''VER1abc''],
          fs_dirs = Map.empty\<rparr>" "''s.img''" "''VER1abc''"]
  by (simp add: list_all_iff)

subsection \<open>Directory entries, read back\<close>

text \<open>What one iteration of each loop over the directory computes, in terms of the
  bytes of the store.\<close>

lemma get_entry_count_ver2:
  "fs_files fs img_file = Some store \<Longrightarrow>
   get_entry_count fs img_file VER2 = unpack_u32 (take 4 (drop 4 store))"
  by (simp add: get_entry_count_def read_u32_at)

lemma extract_entry_try_eq:
  "extract_entry_try store dir_start out i =
     (if length store < dir_start + i * 32 + 8 then Inl StructError
      else
        let file_offset = le_val (take 4 (drop (dir_start + i * 32) store));
            file_size = le_val (take 4 (drop (dir_start + i * 32 + 4) store));
            filename = decode_name_extract (take 24 (drop (dir_start + i * 32 + 8) store))
        in if filename = [] \<or> file_size = 0 then Inr out
           else write_file out filename
                  (take file_size (drop (file_offset * SECTOR_SIZE) store)))"
proof (cases "length store < dir_start + i * 32 + 8")
  case True
  then have "fst (read_u32_pair (f_seek (dir_start + i * 32) (open_bytes store))) = Inl StructError"
    by (intro read_u32_pair_short) (simp add: f_seek_def open_bytes_def)
  with True show ?thesis
    by (auto simp: extract_entry_try_def Let_def split: prod.splits sum.splits)
next
  case False
  then have "pos (f_seek (dir_start + i * 32) (open_bytes store)) + 8
               \<le> length (content (f_seek (dir_start + i * 32) (open_bytes store)))"
    by (simp add: f_seek_def open_bytes_def)
  from read_u32_pair_ok [OF this] False show ?thesis
    by (simp add: extract_entry_try_def Let_def f_seek_def open_bytes_def f_read_def)
qed

lemma list_entry_try_eq:
  "list_entry_try fnmatch filter_pattern store dir_start i =
     (if length store < dir_start + i * 32 + 8 then Inl StructError
      else
        let file_offset = le_val (take 4 (drop (dir_start + i * 32) store));
            file_size = le_val (take 4 (drop (dir_start + i * 32 + 4) store));
            filename = decode_name_list (take 24 (drop (dir_start + i * 32 + 8) store))
        in if filename = [] \<or> file_size = 0 then Inr None
           else if (case filter_pattern of None \<Rightarrow> False
                    | Some pat \<Rightarrow> pat \<noteq> [] \<and> \<not> fnmatch filename pat)
           then Inr None
           else Inr (Some (filename, file_size, file_offset)))"
proof (cases "length store < dir_start + i * 32 + 8")
  case True
  then have "fst (read_u32_pair (f_seek (dir_start + i * 32) (open_bytes store))) = Inl StructError"
    by (intro read_u32_pair_short) (simp add: f_seek_def open_bytes_def)
  with True show ?thesis
    by (auto simp: list_entry_try_def Let_def split: prod.splits sum.splits)
next
  case False
  then have "pos (f_seek (dir_start + i * 32) (open_bytes store)) + 8
               \<le> length (content (f_seek (dir_start + i * 32) (open_bytes store)))"
    by (simp add: f_seek_def open_bytes_def)
  from read_u32_pair_ok [OF this] False show ?thesis
    by (simp add: list_entry_try_def Let_def f_seek_def open_bytes_def f_read_def
          split: option.splits)
qed

lemma info_step_eq:
  "info_step store dir_start (file_size, total_data_size) i =
     (if dir_start + i * 32 + 8 \<le> length store
      then (le_val (take 4 (drop (dir_start + i * 32 + 4) store)),
            total_data_size + le_val (take 4 (drop (dir_start + i * 32 + 4) store)))
      else (file_size, total_data_size))"
  by (auto simp: info_step_def read_u32_at unpack_u32_def Let_def min_def)

subsection \<open>The VER1 scan\<close>

text \<open>The scan is a total function (its termination is proved with the definition);
  started from a count of 0 it returns at most 10001.\<close>

lemma v1_scan_le: "entry_count \<le> 10000 \<Longrightarrow> v1_scan store entry_count offset \<le> 10001"
proof (induction store entry_count offset rule: v1_scan.induct)
  case (1 store entry_count offset)
  show ?case
    apply (subst v1_scan.simps)
    using 1 by (auto split: sum.splits prod.splits)
qed

lemma length_v1_record: "length v1_record = 32"
  by (simp add: v1_record_def)

lemma drop_concat_replicate:
  "k \<le> n \<Longrightarrow> drop (length r * k) (concat (replicate n r)) = concat (replicate (n - k) r)"
proof (induction k arbitrary: n)
  case 0
  then show ?case by simp
next
  case (Suc k)
  then obtain m where n: "n = Suc m" by (cases n) auto
  with Suc.prems have "k \<le> m" by simp
  from Suc.IH [OF this] show ?case by (simp add: n)
qed

lemma length_concat_replicate: "length (concat (replicate n r)) = n * length r"
  by (induction n) simp_all

lemma v1_scan_records:
  "k \<le> n \<Longrightarrow> c + (n - k) \<le> 10001 \<Longrightarrow>
   v1_scan (concat (replicate n v1_record)) c (32 * k) = c + (n - k)"
proof (induction "n - k" arbitrary: k c)
  case 0
  then show ?case
    by (subst v1_scan.simps) (simp add: length_concat_replicate length_v1_record)
next
  case (Suc d)
  then have kn: "k < n" and d: "d = n - Suc k" by auto
  then obtain m where m: "n - k = Suc m" by (cases "n - k") auto
  have dr: "drop (32 * k) (concat (replicate n v1_record)) = v1_record @ concat (replicate m v1_record)"
    using drop_concat_replicate [of k n v1_record] kn m by (simp add: length_v1_record)
  have len: "32 * k + 8 \<le> length (concat (replicate n v1_record))"
    using kn by (simp add: length_concat_replicate length_v1_record)
  have rd: "fst (read_u32_pair (f_seek (32 * k) (open_bytes (concat (replicate n v1_record))))) = Inr (1, 1)"
  proof -
    have dr4: "drop (32 * k + 4) (concat (replicate n v1_record))
                 = drop 4 (v1_record @ concat (replicate m v1_record))"
      using dr by (metis drop_drop add.commute)
    have t1: "le_val (take 4 (drop (32 * k) (concat (replicate n v1_record)))) = 1"
      by (simp only: dr) (simp add: v1_record_def)
    have t2: "le_val (take 4 (drop (32 * k + 4) (concat (replicate n v1_record)))) = 1"
      by (simp only: dr4) (simp add: v1_record_def)
    show ?thesis
      using len t1 t2 by (simp add: read_u32_pair_ok f_seek_def open_bytes_def)
  qed
  have off: "32 * k < length (concat (replicate n v1_record))" using len by simp
  show ?case
  proof (cases "c + 1 > 10000")
    case True
    with Suc.prems m have "m = 0" by simp
    with True m off rd show ?thesis
      by (subst v1_scan.simps) simp
  next
    case False
    have "v1_scan (concat (replicate n v1_record)) (c + 1) (32 * Suc k) = c + 1 + (n - Suc k)"
      using Suc.hyps(1) [of "Suc k" "c + 1"] d kn Suc.prems by simp
    moreover have "n - Suc k = m" using m by simp
    moreover have "32 * Suc k = 32 * k + 32" by simp
    ultimately have "v1_scan (concat (replicate n v1_record)) (c + 1) (32 * k + 32) = c + 1 + m"
      by (simp only:)
    then have step: "v1_scan (concat (replicate n v1_record)) (Suc c) (32 * k + 32) = Suc (c + m)"
      by simp
    from False off rd m show ?thesis
      by (subst v1_scan.simps) (simp add: step)
  qed
qed

text \<open>
  Claim C6 says that the count resolved for a VER1 store never exceeds 10000. The scan
  tests \<^verbatim>\<open>entry_count > 10000\<close> after it has counted a record, so it stops at 10001:
  a store of 10001 records, each with start sector 1 and size 1, is classified VER1
  and its resolved count is 10001.
\<close>

theorem v1_scan_count_exceeds_ceiling:
  "detect_img_format big_fs ''big.img'' = VER1
   \<and> get_entry_count big_fs ''big.img'' VER1 = Inr 10001"
proof -
  have l: "length (concat (replicate 10001 v1_record)) = 320032"
    by (simp add: length_concat_replicate length_v1_record)
  have c: "concat (replicate 10001 v1_record) = v1_record @ concat (replicate 10000 v1_record)"
    using replicate_Suc [of 10000 v1_record] by (simp del: replicate_Suc)
  have t1: "take 4 (concat (replicate 10001 v1_record)) = take 4 v1_record"
    by (simp only: c) (simp add: length_v1_record)
  have t2: "take 4 (drop 4 (concat (replicate 10001 v1_record))) = take 4 (drop 4 v1_record)"
    by (simp only: c) (simp add: length_v1_record)
  have d: "detect_img_format big_fs ''big.img'' = VER1"
    by (simp add: big_fs_def detect_img_format_eq l t1 t2) (simp add: v1_record_def)
  have "v1_scan (concat (replicate 10001 v1_record)) 0 (32 * 0) = 0 + (10001 - 0)"
    by (rule v1_scan_records) simp_all
  then have "v1_scan (concat (replicate 10001 v1_record)) 0 0 = 10001" by simp
  then have g: "get_entry_count big_fs ''big.img'' VER1 = Inr 10001"
    by (simp add: big_fs_def get_entry_count_def)
  from d g show ?thesis by simp
qed

subsection \<open>Names\<close>

text \<open>
  Claim C7 says that every operation decodes a name field in the same way: the bytes
  before the first NUL, trimmed. \<^verbatim>\<open>extract_img\<close> does so; \<^verbatim>\<open>list_img_filtered\<close> only
  removes the NUL bytes at the end. On the 24-byte field \<^verbatim>\<open>a.dat\0xyz\0...\0\<close> the first
  yields \<^verbatim>\<open>a.dat\<close> and the second yields the nine characters \<^verbatim>\<open>a.dat\0xyz\<close>.
\<close>

theorem name_decoders_differ:
  "length name_field = 24
   \<and> decode_name_extract name_field = ''a.dat''
   \<and> decode_name_list name_field = ''a.dat'' @ [CHR 0x00] @ ''xyz''"
  by code_simp

subsection \<open>\<^verbatim>\<open>info_img\<close>\<close>

lemma upt_2: "[0..<2] = [0, 1]" by (simp add: upt_rec)

lemma length_small_store: "length small_store = 6144"
  by (simp add: small_store_def)

text \<open>
  Claim C5 says that the overhead is the size of the store minus the sum of the entry
  sizes, and the efficiency that sum times 100 divided by the size of the store. The
  loop over the directory assigns each entry's size to \<^verbatim>\<open>file_size\<close>, the variable that
  held the size of the store, so both figures are computed from the size of the last
  entry. For the archive of \<^verbatim>\<open>a.dat\<close> (3 bytes) and \<^verbatim>\<open>b.dat\<close> (2 bytes), 6144 bytes
  long, the report gives an overhead of \<open>2 - 5 = -3\<close> and an efficiency of
  \<open>500 div 2 = 250\<close>, where the claim gives 6139 and 0.
\<close>

theorem info_overhead_from_last_entry:
  "info_img small_fs ''small.img'' =
     Inr (True, Some \<lparr>info_size = 6144, info_format = VER2, info_entries = 2,
       info_header_size = 8, info_dir_size = 72, info_data_start_sector = 1,
       info_data_start_byte = 2048, info_total_data_size = 5,
       info_overhead = - 3, info_efficiency = Some 250\<rparr>)
   \<and> int (length small_store) - 5 = 6139
   \<and> (5 * 100) div length small_store = 0"
  by (simp add: info_img_def small_fs_def detect_img_format_eq get_entry_count_def read_u32_at
      unpack_u32_def info_step_eq SECTOR_SIZE_def upt_2 small_store_def)
     (simp add: numeral_2_eq_2 [symmetric])

subsection \<open>\<^verbatim>\<open>extract_img\<close>\<close>

lemma detect_fs_dirs_update [simp]:
  "detect_img_format (fs\<lparr>fs_dirs := d\<rparr>) img_file = detect_img_format fs img_file"
  by (simp add: detect_img_format_eq)

lemma get_entry_count_fs_dirs_update [simp]:
  "get_entry_count (fs\<lparr>fs_dirs := d\<rparr>) img_file format_type
     = get_entry_count fs img_file format_type"
  by (simp add: get_entry_count_def)

lemma extract_img_eq:
  "extract_img fs img_file output_dir =
     (case fs_files fs img_file of
        None \<Rightarrow> (Inr False, fs)
      | Some store \<Rightarrow>
          if isfile fs output_dir then (Inl OSError, fs)
          else
            let fs1 = (if isdir fs output_dir then fs
                       else fs\<lparr>fs_dirs := (fs_dirs fs)(output_dir \<mapsto> [])\<rparr>);
                out = (case fs_dirs fs output_dir of None \<Rightarrow> [] | Some d \<Rightarrow> d);
                format_type = detect_img_format fs img_file
            in if format_type = INVALID then (Inr False, fs1)
               else
                 (case get_entry_count fs img_file format_type of
                    Inl e \<Rightarrow> (Inl e, fs1)
                  | Inr entry_count \<Rightarrow>
                      (Inr True,
                       fs\<lparr>fs_dirs := (fs_dirs fs)(output_dir \<mapsto>
                         foldl (extract_entry store (if format_type = VER2 then 8 else 0))
                           out [0..<entry_count])\<rparr>)))"
  by (auto simp: extract_img_def isfile_def isdir_def makedirs_def Let_def
           split: option.splits sum.splits)










subsection \<open>What \<^verbatim>\<open>create_img\<close> writes\<close>

text \<open>When every size, sector number and count fits in 32 bits and every name is ASCII,
  \<^verbatim>\<open>create_img\<close> succeeds and the archive is \<open>archive_bytes\<close> of the members sorted by
  name.\<close>

lemma length_ljust_take [simp]: "length (ljust n c (take n bs)) = n"
  by (simp add: ljust_def)

lemma length_entry_bytes [simp]: "length (entry_bytes sector filesize filename) = 32"
  by (simp add: entry_bytes_def)

lemma f_write_past_end:
  "length (content f) \<le> pos f \<Longrightarrow> bs \<noteq> [] \<Longrightarrow>
   f_write bs f =
     \<lparr>content = content f @ replicate (pos f - length (content f)) (CHR 0x00) @ bs,
      pos = pos f + length bs\<rparr>"
  by (simp add: f_write_def)

lemma f_write_over:
  "content f = A @ B @ C \<Longrightarrow> pos f = length A \<Longrightarrow> length bs = length B \<Longrightarrow> bs \<noteq> [] \<Longrightarrow>
   f_write bs f = \<lparr>content = A @ bs @ C, pos = length A + length bs\<rparr>"
  by (simp add: f_write_def)

lemma le_bytes_4_nonempty [simp]: "le_bytes 4 v \<noteq> []"
proof
  assume "le_bytes 4 v = []"
  then have "length (le_bytes 4 v) = 0" by simp
  then show False by simp
qed

lemma ljust_24_nonempty [simp]: "ljust 24 c bs \<noteq> []"
proof
  assume "ljust 24 c bs = []"
  then have "length (ljust 24 c bs) = 0" by simp
  then show False by (auto simp: ljust_def)
qed

lemma write_entry_ok:
  assumes "current_sector < 2 ^ 32" and "filesize < 2 ^ 32" and "list_all is_ascii filename"
    and "content f = A @ Z @ C" and "length Z = 32"
    and "length A = (if format_type = VER2 then 8 else 0) + i * 32"
  shows "write_entry format_type i current_sector filesize filename f =
           (Inr (), \<lparr>content = A @ entry_bytes current_sector filesize filename @ C,
                     pos = length A + 32\<rparr>)"
proof -
  let ?b1 = "le_bytes 4 current_sector" and ?b2 = "le_bytes 4 filesize"
  let ?b3 = "ljust 24 (CHR 0x00) (take 24 filename)"
  let ?f0 = "f_seek (length A) f"
  obtain Z1 Z2 Z3 where Z: "Z = Z1 @ Z2 @ Z3"
    and lz: "length Z1 = 4" "length Z2 = 4" "length Z3 = 24"
  proof
    have "take 4 (drop 4 Z) @ drop 4 (drop 4 Z) = drop 4 Z" by (rule append_take_drop_id)
    moreover have "drop 4 (drop 4 Z) = drop 8 Z" by simp
    ultimately have "take 4 (drop 4 Z) @ drop 8 Z = drop 4 Z" by (simp only:)
    moreover have "take 4 Z @ drop 4 Z = Z" by (rule append_take_drop_id)
    ultimately show "Z = take 4 Z @ take 4 (drop 4 Z) @ drop 8 Z" by (simp only:)
    show "length (take 4 Z) = 4" "length (take 4 (drop 4 Z)) = 4" "length (drop 8 Z) = 24"
      using assms(5) by simp_all
  qed
  have c0: "content ?f0 = A @ Z1 @ (Z2 @ Z3 @ C)"
    using assms(4) by (simp add: f_seek_def Z)
  have w1: "f_write ?b1 ?f0 =
      \<lparr>content = A @ ?b1 @ (Z2 @ Z3 @ C), pos = length A + length ?b1\<rparr>"
    by (rule f_write_over [OF c0]) (simp_all add: f_seek_def lz)
  have w2: "f_write ?b2 (f_write ?b1 ?f0) =
      \<lparr>content = (A @ ?b1) @ ?b2 @ (Z3 @ C), pos = length (A @ ?b1) + length ?b2\<rparr>"
    by (rule f_write_over [where B = Z2]) (simp_all add: w1 lz)
  have w3: "f_write ?b3 (f_write ?b2 (f_write ?b1 ?f0)) =
      \<lparr>content = (A @ ?b1 @ ?b2) @ ?b3 @ C, pos = length (A @ ?b1 @ ?b2) + length ?b3\<rparr>"
    by (rule f_write_over [where B = Z3]) (simp_all add: w2 lz)
  show ?thesis
    using assms(1-3)
    by (simp add: write_entry_def Let_def pack_u32_def encode_ascii_def assms(6) [symmetric]
          w3 entry_bytes_def)
qed

lemma length_dir_bytes [simp]: "length (dir_bytes ms cur) = 32 * length ms"
  by (induction ms cur rule: dir_bytes.induct) simp_all

lemma total_sectors_Cons [simp]:
  "total_sectors (m # ms) = sectors_needed (length (snd m)) + total_sectors ms"
  by (simp add: total_sectors_def)

lemma total_sectors_Nil [simp]: "total_sectors [] = 0"
  by (simp add: total_sectors_def)

lemma write_directory_ok:
  assumes "\<And>n file_data. (n, file_data) \<in> set ms \<Longrightarrow>
             map_of d n = Some file_data \<and> length file_data < 2 ^ 32 \<and> list_all is_ascii n"
    and "cur + total_sectors ms < 2 ^ 32"
    and "content f = A @ Z @ C" and "length Z = 32 * length ms"
    and "length A = (if format_type = VER2 then 8 else 0) + i * 32"
  shows "\<exists>p. write_directory format_type d (map fst ms) i cur f =
           (Inr (infos ms cur), \<lparr>content = A @ dir_bytes ms cur @ C, pos = p\<rparr>)"
  using assms
proof (induction ms arbitrary: i cur f A Z)
  case Nil
  then show ?case by (cases f) simp
next
  case (Cons m ms)
  obtain n file_data where m: "m = (n, file_data)" by (cases m)
  from Cons.prems(1) [of n file_data] m
  have md: "map_of d n = Some file_data" and sz: "length file_data < 2 ^ 32"
    and asc: "list_all is_ascii n" by simp_all
  have cur: "cur < 2 ^ 32" using Cons.prems(2) by simp
  let ?Z1 = "take 32 Z" and ?Z2 = "drop 32 Z"
  have lz: "length ?Z1 = 32" "length ?Z2 = 32 * length ms"
    using Cons.prems(4) by simp_all
  have c: "content f = A @ ?Z1 @ (?Z2 @ C)" using Cons.prems(3) by simp
  have asc': "list_all is_ascii (take 24 n)"
    using asc by (simp add: list_all_iff) (meson in_set_takeD)
  have fn: "(if 24 < length n then take 24 n else n) = take 24 n" by simp
  let ?e = "entry_bytes cur (length file_data) (take 24 n)"
  let ?f1 = "\<lparr>content = A @ ?e @ (?Z2 @ C), pos = length A + 32\<rparr>"
  have we: "write_entry format_type i cur (length file_data) (take 24 n) f = (Inr (), ?f1)"
    by (rule write_entry_ok [OF cur sz asc' c lz(1) Cons.prems(5)])
  have "\<exists>p. write_directory format_type d (map fst ms) (i + 1)
               (cur + sectors_needed (length file_data)) ?f1 =
           (Inr (infos ms (cur + sectors_needed (length file_data))),
            \<lparr>content = (A @ ?e) @ dir_bytes ms (cur + sectors_needed (length file_data)) @ C,
             pos = p\<rparr>)"
  proof (rule Cons.IH)
    show "\<And>n file_data. (n, file_data) \<in> set ms \<Longrightarrow>
             map_of d n = Some file_data \<and> length file_data < 2 ^ 32 \<and> list_all is_ascii n"
      using Cons.prems(1) by auto
    show "cur + sectors_needed (length file_data) + total_sectors ms < 2 ^ 32"
      using Cons.prems(2) m by (simp add: add.assoc)
    show "content ?f1 = (A @ ?e) @ ?Z2 @ C" by simp
    show "length ?Z2 = 32 * length ms" by (rule lz(2))
    show "length (A @ ?e) = (if format_type = VER2 then 8 else 0) + (i + 1) * 32"
      using Cons.prems(5) by simp
  qed
  then obtain p where
    "write_directory format_type d (map fst ms) (i + 1)
               (cur + sectors_needed (length file_data)) ?f1 =
           (Inr (infos ms (cur + sectors_needed (length file_data))),
            \<lparr>content = (A @ ?e) @ dir_bytes ms (cur + sectors_needed (length file_data)) @ C,
             pos = p\<rparr>)" ..
  then show ?case
    using md we by (simp add: m getsize_def fn del: One_nat_def)
qed

lemma f_write_append_end:
  "length (content f) \<le> pos f \<Longrightarrow> f_write b (f_write a f) = f_write (a @ b) f"
  by (cases "a = []"; cases "b = []") (simp_all add: f_write_def)

lemma f_write_at_end:
  "length (content f) \<le> pos f \<Longrightarrow> length (content (f_write bs f)) \<le> pos (f_write bs f)"
  by (simp add: f_write_def)

lemma write_padding:
  "(if SECTOR_SIZE - n mod SECTOR_SIZE \<noteq> SECTOR_SIZE
    then f_write (replicate (SECTOR_SIZE - n mod SECTOR_SIZE) (CHR 0x00)) g else g)
   = f_write (replicate ((SECTOR_SIZE - n mod SECTOR_SIZE) mod SECTOR_SIZE) (CHR 0x00)) g"
proof (cases "n mod SECTOR_SIZE = 0")
  case True
  then show ?thesis by (simp add: f_write_def SECTOR_SIZE_def)
next
  case False
  then have "SECTOR_SIZE - n mod SECTOR_SIZE < SECTOR_SIZE"
    by (simp add: SECTOR_SIZE_def)
  then show ?thesis by simp
qed

lemma write_data_ok:
  assumes "\<And>n file_data. (n, file_data) \<in> set ms \<Longrightarrow> map_of d n = Some file_data"
    and "length (content f) \<le> pos f"
  shows "write_data d (infos ms cur) f = (Inr (), f_write (payload ms) f)"
  using assms
proof (induction ms arbitrary: cur f)
  case Nil
  then show ?case by (simp add: payload_def f_write_def)
next
  case (Cons m ms)
  obtain n file_data where m: "m = (n, file_data)" by (cases m)
  from Cons.prems(1) [of n file_data] m have md: "map_of d n = Some file_data" by simp
  let ?g = "f_write (padded file_data) f"
  have g: "length (content ?g) \<le> pos ?g" by (rule f_write_at_end [OF Cons.prems(2)])
  have step: "f_write (replicate ((SECTOR_SIZE - length file_data mod SECTOR_SIZE) mod SECTOR_SIZE) (CHR 0x00))
                (f_write file_data f) = ?g"
    by (simp add: padded_def f_write_append_end [OF Cons.prems(2)])
  have "write_data d (infos ms (cur + sectors_needed (length file_data))) ?g
          = (Inr (), f_write (payload ms) ?g)"
    using Cons.prems(1) g by (intro Cons.IH) simp_all
  moreover have "f_write (payload ms) ?g = f_write (payload (m # ms)) f"
    by (simp add: payload_def m f_write_append_end [OF Cons.prems(2)])
  ultimately show ?case
    using md by (simp add: m Let_def write_padding step)
qed

lemma length_header_bytes [simp]:
  "length (header_bytes format_type n) = header_size_of format_type"
  by (simp add: header_bytes_def header_size_of_def)

lemma dir_size_le_data_start:
  "dir_size_of format_type n \<le> data_start_sector_of format_type n * SECTOR_SIZE"
  by (simp add: data_start_sector_of_def SECTOR_SIZE_def)

lemma write_header_ok:
  "n < 2 ^ 32 \<Longrightarrow>
   write_header format_type n (open_bytes [])
   = (Inr (), \<lparr>content = header_bytes format_type n, pos = header_size_of format_type\<rparr>)"
  by (simp add: write_header_def pack_u32_def header_bytes_def header_size_of_def
        open_bytes_def f_write_def)

lemma create_body_ok:
  assumes "\<And>n file_data. (n, file_data) \<in> set ms \<Longrightarrow>
             map_of d n = Some file_data \<and> length file_data < 2 ^ 32 \<and> list_all is_ascii n"
    and "data_start_sector_of format_type (length ms) + total_sectors ms < 2 ^ 32"
    and "length ms < 2 ^ 32"
  shows "\<exists>p. create_body format_type d (map fst ms) (open_bytes []) =
           (Inr (), \<lparr>content = archive_bytes format_type ms, pos = p\<rparr>)"
proof -
  let ?n = "length ms"
  let ?H = "header_bytes format_type ?n"
  let ?dss = "data_start_sector_of format_type ?n"
  let ?f1 = "\<lparr>content = ?H, pos = header_size_of format_type\<rparr>"
  let ?f2 = "f_write (replicate (dir_size_of format_type ?n - header_size_of format_type) (CHR 0x00)) ?f1"
  have c2: "content ?f2 = ?H @ replicate (32 * ?n) (CHR 0x00) @ []"
    by (simp add: f_write_def dir_size_of_def)
  have la: "length ?H = (if format_type = VER2 then 8 else 0) + 0 * 32"
    by (simp add: header_size_of_def)
  from write_directory_ok [OF assms(1) assms(2) c2 _ la]
  obtain p where wd: "write_directory format_type d (map fst ms) 0 ?dss ?f2 =
      (Inr (infos ms ?dss), \<lparr>content = ?H @ dir_bytes ms ?dss @ [], pos = p\<rparr>)"
    by auto
  let ?f3 = "\<lparr>content = ?H @ dir_bytes ms ?dss, pos = p\<rparr>"
  let ?f4 = "f_seek (?dss * SECTOR_SIZE) ?f3"
  have l4: "length (content ?f4) \<le> pos ?f4"
    using dir_size_le_data_start [of format_type ?n]
    by (simp add: f_seek_def dir_size_of_def)
  have wdata: "write_data d (infos ms ?dss) ?f4 = (Inr (), f_write (payload ms) ?f4)"
    using assms(1) l4 by (intro write_data_ok) auto
  have c5: "content (f_write (payload ms) ?f4) = archive_bytes format_type ms"
  proof (cases "payload ms = []")
    case True
    then show ?thesis by (simp add: f_write_def f_seek_def archive_bytes_def)
  next
    case False
    from f_write_past_end [OF l4 False] False show ?thesis
      by (simp add: f_seek_def archive_bytes_def dir_size_of_def mult.commute)
  qed
  have "create_body format_type d (map fst ms) (open_bytes []) = (Inr (), f_write (payload ms) ?f4)"
    using wd wdata by (simp add: create_body_def Let_def write_header_ok [OF assms(3)])
  with c5 show ?thesis
    by (cases "f_write (payload ms) ?f4") auto
qed

lemma map_insort_key: "map f (insort_key f x xs) = insort (f x) (map f xs)"
  by (induction xs) simp_all

lemma map_sort_key: "map f (sort_key f xs) = sort (map f xs)"
  by (induction xs) (simp_all add: map_insort_key)

lemma sum_list_insort_key:
  "sum_list (map g (insort_key f x xs)) = (g x :: nat) + sum_list (map g xs)"
  by (induction xs) simp_all

lemma total_sectors_sort_key: "total_sectors (sort_key f d) = total_sectors d"
  by (induction d) (simp_all add: total_sectors_def sum_list_insort_key)

lemma create_img_ok:
  assumes "fs_dirs fs input_dir = Some d" and "format_of_token tok = Some format_type"
    and "d \<noteq> []" and "\<not> isdir fs img_file" and "distinct (map fst d)"
    and "\<And>n file_data. (n, file_data) \<in> set d \<Longrightarrow>
           length file_data < 2 ^ 32 \<and> list_all is_ascii n"
    and "data_start_sector_of format_type (length d) + total_sectors d < 2 ^ 32"
    and "length d < 2 ^ 32"
  shows "create_img fs tok img_file input_dir =
           (Inr True,
            fs\<lparr>fs_files := (fs_files fs)(img_file \<mapsto>
              archive_bytes format_type (sort_key fst d))\<rparr>)"
proof -
  let ?ms = "sort_key fst d"
  have names: "sort (map fst d) = map fst ?ms" by (simp add: map_sort_key)
  have ne: "sort (map fst d) \<noteq> []"
    using assms(3) by (metis length_sort length_map length_0_conv)
  have "\<exists>p. create_body format_type d (map fst ?ms) (open_bytes []) =
           (Inr (), \<lparr>content = archive_bytes format_type ?ms, pos = p\<rparr>)"
  proof (rule create_body_ok)
    fix n file_data
    assume "(n, file_data) \<in> set ?ms"
    then have "(n, file_data) \<in> set d" by simp
    with assms(5,6) show "map_of d n = Some file_data \<and> length file_data < 2 ^ 32
                            \<and> list_all is_ascii n"
      by simp
  next
    show "data_start_sector_of format_type (length ?ms) + total_sectors ?ms < 2 ^ 32"
      using assms(7) by (simp add: total_sectors_sort_key)
    show "length ?ms < 2 ^ 32" using assms(8) by simp
  qed
  then obtain p where "create_body format_type d (sort (map fst d)) (open_bytes []) =
           (Inr (), \<lparr>content = archive_bytes format_type ?ms, pos = p\<rparr>)"
    by (auto simp: names)
  with assms(1,2,4) ne show ?thesis
    by (simp add: create_img_def Let_def)
qed

subsection \<open>Reading a built archive back\<close>

lemma drop_add: "drop (a + b) xs = drop b (drop a xs)"
  by (simp add: add.commute)

lemma entry_fields:
  assumes "drop p S = entry_bytes sector filesize filename @ R"
    and "sector < 2 ^ 32" and "filesize < 2 ^ 32"
  shows "p + 32 \<le> length S"
    and "le_val (take 4 (drop p S)) = sector"
    and "le_val (take 4 (drop (p + 4) S)) = filesize"
    and "take 24 (drop (p + 8) S) = ljust 24 (CHR 0x00) (take 24 filename)"
proof -
  have "length (drop p S) \<ge> 32" by (simp only: assms(1)) simp
  then show "p + 32 \<le> length S" by simp
  have v: "le_val (le_bytes 4 sector) = sector" "le_val (le_bytes 4 filesize) = filesize"
    using assms(2,3) le_val_le_bytes [of _ 4] by simp_all
  show "le_val (take 4 (drop p S)) = sector"
    by (simp only: assms(1)) (simp add: entry_bytes_def v)
  show "le_val (take 4 (drop (p + 4) S)) = filesize"
    by (simp only: drop_add assms(1)) (simp add: entry_bytes_def v)
  show "take 24 (drop (p + 8) S) = ljust 24 (CHR 0x00) (take 24 filename)"
    by (simp only: drop_add assms(1)) (simp add: entry_bytes_def)
qed

lemma split_nul_first_padded:
  assumes "CHR 0x00 \<notin> set name"
  shows "split_nul_first (name @ replicate k (CHR 0x00)) = name"
proof -
  have "takeWhile (\<lambda>c. c \<noteq> CHR 0x00) (name @ replicate k (CHR 0x00))
          = name @ takeWhile (\<lambda>c. c \<noteq> CHR 0x00) (replicate k (CHR 0x00))"
    by (rule takeWhile_append2) (use assms in auto)
  moreover have "takeWhile (\<lambda>c. c \<noteq> CHR 0x00) (replicate k (CHR 0x00)) = []"
    by (cases k) simp_all
  ultimately show ?thesis by (simp add: split_nul_first_def)
qed


lemma length_padded: "length (padded file_data) = sectors_needed (length file_data) * SECTOR_SIZE"
proof -
  have "n + (2048 - n mod 2048) mod 2048 = (n + 2047) div 2048 * 2048" for n :: nat
  proof -
    define q r where "q = n div 2048" and "r = n mod 2048"
    have n: "n = q * 2048 + r" and r: "r < 2048" by (simp_all add: q_def r_def)
    show ?thesis
    proof (cases "r = 0")
      case True
      then show ?thesis by (simp add: n)
    next
      case False
      then have "q * 2048 + r + 2047 = (r - 1) + (q + 1) * 2048" by simp
      moreover have "(r - 1 + (q + 1) * 2048) div 2048 = (q + 1) + (r - 1) div 2048"
        by (rule div_mult_self1) simp
      ultimately have "(q * 2048 + r + 2047) div 2048 = (q + 1) + (r - 1) div 2048"
        by (simp only:)
      with r False show ?thesis by (simp add: n)
    qed
  qed
  then show ?thesis by (simp add: padded_def sectors_needed_def SECTOR_SIZE_def)
qed

lemma length_payload: "length (payload ms) = total_sectors ms * SECTOR_SIZE"
  by (induction ms) (simp_all add: payload_def length_padded add_mult_distrib)

lemma payload_append: "payload (xs @ ys) = payload xs @ payload ys"
  by (simp add: payload_def)


lemma dir_bytes_append:
  "dir_bytes (xs @ ys) cur = dir_bytes xs cur @ dir_bytes ys (cur + total_sectors xs)"
  by (induction xs cur rule: dir_bytes.induct) (simp_all add: add.assoc)

lemma length_archive_prefix:
  "length (header_bytes format_type (length ms)
           @ dir_bytes ms (data_start_sector_of format_type (length ms))
           @ replicate (data_start_sector_of format_type (length ms) * SECTOR_SIZE
                          - dir_size_of format_type (length ms)) (CHR 0x00))
   = data_start_sector_of format_type (length ms) * SECTOR_SIZE"
  using dir_size_le_data_start [of format_type "length ms"]
  by (simp add: dir_size_of_def)

lemma archive_entry_at:
  assumes "i < length ms"
  shows "\<exists>R. drop (header_size_of format_type + i * 32) (archive_bytes format_type ms) =
           entry_bytes (sector_of format_type ms i) (length (snd (ms ! i)))
             (take 24 (fst (ms ! i))) @ R"
proof -
  let ?dss = "data_start_sector_of format_type (length ms)"
  obtain n file_data where m: "ms ! i = (n, file_data)" by (cases "ms ! i")
  have ms: "ms = take i ms @ (n, file_data) # drop (Suc i) ms"
    using assms m by (metis id_take_nth_drop)
  have "dir_bytes ms ?dss = dir_bytes (take i ms @ (n, file_data) # drop (Suc i) ms) ?dss"
    using ms by simp
  then have d: "dir_bytes ms ?dss =
      dir_bytes (take i ms) ?dss
      @ entry_bytes (sector_of format_type ms i) (length file_data) (take 24 n)
      @ dir_bytes (drop (Suc i) ms) (sector_of format_type ms i + sectors_needed (length file_data))"
    by (simp only: dir_bytes_append dir_bytes.simps sector_of_def append_assoc)
  have l: "length (header_bytes format_type (length ms) @ dir_bytes (take i ms) ?dss)
             = header_size_of format_type + i * 32"
    using assms by simp
  have "archive_bytes format_type ms =
      (header_bytes format_type (length ms) @ dir_bytes (take i ms) ?dss)
      @ (entry_bytes (sector_of format_type ms i) (length file_data) (take 24 n)
         @ dir_bytes (drop (Suc i) ms) (sector_of format_type ms i + sectors_needed (length file_data))
         @ (if payload ms = [] then []
            else replicate (?dss * SECTOR_SIZE - dir_size_of format_type (length ms)) (CHR 0x00)
                 @ payload ms))"
    by (simp only: archive_bytes_def d append_assoc)
  then have "drop (header_size_of format_type + i * 32) (archive_bytes format_type ms) =
      entry_bytes (sector_of format_type ms i) (length file_data) (take 24 n)
         @ dir_bytes (drop (Suc i) ms) (sector_of format_type ms i + sectors_needed (length file_data))
         @ (if payload ms = [] then []
            else replicate (?dss * SECTOR_SIZE - dir_size_of format_type (length ms)) (CHR 0x00)
                 @ payload ms)"
    using l by (metis append_eq_conv_conj)
  then show ?thesis by (simp add: m)
qed

lemma archive_payload_at:
  assumes "i < length ms" and "payload ms \<noteq> []"
  shows "\<exists>R. drop (sector_of format_type ms i * SECTOR_SIZE) (archive_bytes format_type ms) =
           snd (ms ! i) @ R"
proof -
  let ?dss = "data_start_sector_of format_type (length ms)"
  let ?pre = "header_bytes format_type (length ms) @ dir_bytes ms ?dss
           @ replicate (?dss * SECTOR_SIZE - dir_size_of format_type (length ms)) (CHR 0x00)"
  have ms: "ms = take i ms @ ms ! i # drop (Suc i) ms"
    using assms(1) by (metis id_take_nth_drop)
  have "payload ms = payload (take i ms @ ms ! i # drop (Suc i) ms)"
    using ms by simp
  then have p: "payload ms = payload (take i ms)
                  @ (snd (ms ! i) @ drop (length (snd (ms ! i))) (padded (snd (ms ! i)))
                     @ payload (drop (Suc i) ms))"
    by (simp only: payload_append) (simp add: payload_def padded_def)
  have a: "archive_bytes format_type ms = (?pre @ payload (take i ms))
             @ (snd (ms ! i) @ drop (length (snd (ms ! i))) (padded (snd (ms ! i)))
                     @ payload (drop (Suc i) ms))"
  proof -
    have a0: "archive_bytes format_type ms = ?pre @ payload ms"
      using assms(2) by (simp add: archive_bytes_def)
    show ?thesis
      by (subst a0, subst p) (simp only: append_assoc)
  qed
  have l: "length (?pre @ payload (take i ms)) = sector_of format_type ms i * SECTOR_SIZE"
    using length_archive_prefix [of format_type ms]
    by (simp only: length_append [of ?pre] length_payload sector_of_def add_mult_distrib)
  from a l have "drop (sector_of format_type ms i * SECTOR_SIZE) (archive_bytes format_type ms)
      = snd (ms ! i) @ drop (length (snd (ms ! i))) (padded (snd (ms ! i)))
                     @ payload (drop (Suc i) ms)"
    by (metis append_eq_conv_conj)
  then show ?thesis by blast
qed

lemma payload_nonempty:
  assumes "i < length ms" and "snd (ms ! i) \<noteq> []"
  shows "payload ms \<noteq> []"
proof -
  have "ms = take i ms @ ms ! i # drop (Suc i) ms"
    using assms(1) by (metis id_take_nth_drop)
  then have "payload ms = payload (take i ms @ ms ! i # drop (Suc i) ms)" by simp
  then show ?thesis using assms(2) by (simp add: payload_def padded_def)
qed





lemma detect_files_eq:
  "fs_files fs img_file = Some store \<Longrightarrow>
   detect_img_format fs img_file =
     (if take 4 store = ''VER2'' then VER2
      else if length store < 32 then INVALID
      else if 0 < le_val (take 4 store) \<and> 0 < le_val (take 4 (drop 4 store))
              \<and> le_val (take 4 (drop 4 store)) < length store
      then VER1 else INVALID)"
  by (simp add: detect_img_format_eq)

lemma archive_ver2_magic: "take 4 (archive_bytes VER2 ms) = ''VER2''"
  by (simp add: archive_bytes_def header_bytes_def)

lemma archive_ver2_count:
  "length ms < 2 ^ 32 \<Longrightarrow> unpack_u32 (take 4 (drop 4 (archive_bytes VER2 ms))) = Inr (length ms)"
  by (simp add: archive_bytes_def header_bytes_def unpack_le_bytes)













lemma detect_archive_ver2:
  "fs_files fs img_file = Some (archive_bytes VER2 ms) \<Longrightarrow> detect_img_format fs img_file = VER2"
  by (simp add: detect_files_eq archive_ver2_magic)

lemma format_of_token_lower [simp]:
  "format_of_token ''ver1'' = Some VER1" "format_of_token ''ver2'' = Some VER2"
  by (simp_all add: format_of_token_def to_upper_def)

lemma rstrip_nul_padded:
  assumes "name \<noteq> []" and "last name \<noteq> CHR 0x00"
  shows "rstrip_nul (name @ replicate k (CHR 0x00)) = name"
proof -
  have "dropWhile (\<lambda>c. c = CHR 0x00) (replicate k (CHR 0x00) @ rev name)
          = dropWhile (\<lambda>c. c = CHR 0x00) (rev name)"
    by (rule dropWhile_append2) simp
  moreover have "dropWhile (\<lambda>c. c = CHR 0x00) (rev name) = rev name"
    using assms by (cases "rev name") (auto simp: last_rev [symmetric] simp del: last_rev)
  ultimately show ?thesis by (simp add: rstrip_nul_def)
qed

lemma decode_name_list_ljust:
  assumes "length name \<le> 24" and "name \<noteq> []" and "last name \<noteq> CHR 0x00"
    and "list_all is_ascii name"
  shows "decode_name_list (ljust 24 (CHR 0x00) (take 24 name)) = name"
  using assms
  by (simp add: decode_name_list_def ljust_def rstrip_nul_padded decode_ascii_ignore_def
        list_all_iff)

lemma list_entry_member:
  assumes "i < length ms" and "member_ok (ms ! i)" and "last (fst (ms ! i)) \<noteq> CHR 0x00"
    and "sector_of format_type ms i < 2 ^ 32"
  shows "list_entry fnmatch None (archive_bytes format_type ms) (header_size_of format_type) rows i
           = rows @ [(fst (ms ! i), length (snd (ms ! i)), sector_of format_type ms i)]"
proof -
  let ?S = "archive_bytes format_type ms" and ?h = "header_size_of format_type"
  obtain n file_data where m: "ms ! i = (n, file_data)" by (cases "ms ! i")
  from assms(2) m have ok: "length n \<le> 24" "list_all is_ascii n" "valid_filename n"
    "file_data \<noteq> []" "length file_data < 2 ^ 32"
    by (simp_all add: member_ok_def)
  from ok(3) have ne: "n \<noteq> []" by (simp add: valid_filename_def)
  obtain R where R: "drop (?h + i * 32) ?S =
      entry_bytes (sector_of format_type ms i) (length file_data) (take 24 n) @ R"
    using archive_entry_at [OF assms(1), of format_type] m by auto
  note ef = entry_fields [OF R assms(4) ok(5)]
  have "decode_name_list (ljust 24 (CHR 0x00) (take 24 n)) = n"
    using assms(3) m by (intro decode_name_list_ljust ok ne) simp
  then have nm: "decode_name_list (take 24 (drop (?h + i * 32 + 8) ?S)) = n"
    using ok(1) by (simp add: ef(4))
  have "list_entry_try fnmatch None ?S ?h i
          = Inr (Some (n, length file_data, sector_of format_type ms i))"
    using ef(1) ne ok(4)
    by (simp add: list_entry_try_eq Let_def ef(2) ef(3) nm)
  then show ?thesis by (simp add: list_entry_def m)
qed

subsection \<open>Build, then extract\<close>




text \<open>
  Two more member sets that the amended claim leaves out: \<^verbatim>\<open>create_img\<close> refuses a
  directory with no file, and the extraction strips the whitespace around a name, so
  the file \<^verbatim>\<open>" a"\<close> comes back as \<^verbatim>\<open>"a"\<close>.
\<close>

lemma create_img_no_files:
  "fs_dirs fs input_dir = Some [] \<Longrightarrow>
   create_img fs ''ver2'' img_file input_dir = (Inr False, fs)"
  by (simp add: create_img_def)

lemma roundtrip_strips_name:
  "fs_dirs spaced_fs ''in'' = Some [('' a'', ''x'')]
   \<and> fst (create_img spaced_fs ''ver2'' ''s.img'' ''in'') = Inr True
   \<and> fs_dirs (snd (extract_img (snd (create_img spaced_fs ''ver2'' ''s.img'' ''in''))
                      ''s.img'' ''out'')) ''out'' = Some [(''a'', ''x'')]"
proof -
  let ?fs = spaced_fs
  let ?ms = "[('' a'', ''x'')] :: (string \<times> bytes) list"
  let ?S = "archive_bytes VER2 ?ms"
  let ?fs1 = "?fs\<lparr>fs_files := (fs_files ?fs)(''s.img'' \<mapsto> ?S)\<rparr>"
  have d: "fs_dirs ?fs ''in'' = Some ?ms" by (simp add: spaced_fs_def)
  have dss: "data_start_sector_of VER2 (Suc 0) = 1"
    by (simp add: data_start_sector_of_def dir_size_of_def header_size_of_def SECTOR_SIZE_def)
  have "create_img ?fs ''ver2'' ''s.img'' ''in'' =
          (Inr True, ?fs\<lparr>fs_files := (fs_files ?fs)(''s.img'' \<mapsto>
              archive_bytes VER2 (sort_key fst ?ms))\<rparr>)"
    by (rule create_img_ok [OF d])
       (simp_all add: spaced_fs_def isdir_def is_ascii_def total_sectors_def sectors_needed_def
          SECTOR_SIZE_def dss)
  then have cr: "create_img ?fs ''ver2'' ''s.img'' ''in'' = (Inr True, ?fs1)" by simp
  have f1: "fs_files ?fs1 ''s.img'' = Some ?S" by simp
  have det: "detect_img_format ?fs1 ''s.img'' = VER2"
    using f1 by (rule detect_archive_ver2)
  have cnt: "get_entry_count ?fs1 ''s.img'' VER2 = Inr 1"
    using archive_ver2_count [of ?ms] by (simp add: get_entry_count_ver2)
  obtain R where R: "drop (header_size_of VER2 + 0 * 32) ?S =
      entry_bytes (sector_of VER2 ?ms 0) (length (snd (?ms ! 0))) (take 24 (fst (?ms ! 0))) @ R"
    using archive_entry_at [of 0 ?ms VER2] by auto
  then have R0: "drop 8 ?S = entry_bytes 1 1 (take 24 '' a'') @ R"
    by (simp add: header_size_of_def sector_of_def dss)
  have ef1: "40 \<le> length ?S" using entry_fields(1) [OF R0] by simp
  have ef2: "le_val (take 4 (drop 8 ?S)) = 1" using entry_fields(2) [OF R0] by simp
  have ef3: "le_val (take 4 (drop 12 ?S)) = 1" using entry_fields(3) [OF R0] by simp
  have ef4: "take 24 (drop 16 ?S) = ljust 24 (CHR 0x00) (take 24 '' a'')"
    using entry_fields(4) [OF R0] by simp
  have "payload ?ms \<noteq> []" using payload_nonempty [of 0 ?ms] by simp
  then obtain R' where "drop (sector_of VER2 ?ms 0 * SECTOR_SIZE) ?S = snd (?ms ! 0) @ R'"
    using archive_payload_at [of 0 ?ms VER2] by auto
  then have dt: "take 1 (drop SECTOR_SIZE ?S) = ''x''"
    by (simp add: sector_of_def dss)
  have "split_nul_first ('' a'' @ replicate 22 (CHR 0x00)) = '' a''"
    by (rule split_nul_first_padded) simp
  then have nm: "decode_name_extract (ljust 24 (CHR 0x00) (take 24 '' a'')) = ''a''"
    by (simp add: decode_name_extract_def ljust_def strip_def is_space_def
          decode_ascii_ignore_def is_ascii_def)
  have "extract_entry_try ?S 8 [] 0 = Inr [(''a'', ''x'')]"
    using ef1 nm dt by (simp add: extract_entry_try_eq Let_def ef2 ef3 ef4 write_file_def
          valid_filename_def)
  then have ex: "extract_entry ?S 8 [] 0 = [(''a'', ''x'')]"
    by (simp add: extract_entry_def)
  have o: "\<not> isfile ?fs1 ''out''" "\<not> isdir ?fs1 ''out''" "fs_dirs ?fs1 ''out'' = None"
    by (simp_all add: spaced_fs_def isfile_def isdir_def)
  have "extract_img ?fs1 ''s.img'' ''out'' =
          (Inr True, ?fs1\<lparr>fs_dirs := (fs_dirs ?fs1)(''out'' \<mapsto> [(''a'', ''x'')])\<rparr>)"
    using o by (simp add: extract_img_eq f1 Let_def det cnt ex)
  with cr d show ?thesis by simp
qed

subsection \<open>The layout of two files\<close>

text \<open>
  Claim C2. A VER2 archive built from exactly \<^verbatim>\<open>a.dat\<close> (10 bytes) and \<^verbatim>\<open>b.dat\<close>
  (5000 bytes), in whichever order the directory lists them, has a directory of 72
  bytes and its data starts at sector 1; its listing shows \<^verbatim>\<open>a.dat\<close> with size 10 at
  sector 1 and \<^verbatim>\<open>b.dat\<close> with size 5000 at sector 2, and the payloads stand at the
  byte offsets \<open>1 * 2048\<close> and \<open>2 * 2048\<close>.
\<close>

theorem two_file_layout:
  assumes "fs_dirs fs input_dir = Some d"
    and "d = [(''a.dat'', a), (''b.dat'', b)] \<or> d = [(''b.dat'', b), (''a.dat'', a)]"
    and "length a = 10" and "length b = 5000" and "\<not> isdir fs img_file"
  shows "dir_size_of VER2 (length d) = 72
         \<and> data_start_sector_of VER2 (length d) = 1
         \<and> (\<exists>fs' store.
               create_img fs ''ver2'' img_file input_dir = (Inr True, fs')
               \<and> fs_files fs' img_file = Some store
               \<and> list_img_filtered fnmatch fs' img_file None
                   = Inr (True, [(''a.dat'', 10, 1), (''b.dat'', 5000, 2)])
               \<and> take 10 (drop (1 * SECTOR_SIZE) store) = a
               \<and> take 5000 (drop (2 * SECTOR_SIZE) store) = b)"
proof -
  let ?ms = "[(''a.dat'', a), (''b.dat'', b)]"
  let ?S = "archive_bytes VER2 ?ms"
  let ?fs1 = "fs\<lparr>fs_files := (fs_files fs)(img_file \<mapsto> ?S)\<rparr>"
  have ld: "length d = 2" using assms(2) by auto
  have sk: "sort_key fst d = ?ms" using assms(2) by auto
  have ds: "dir_size_of VER2 2 = 72" "data_start_sector_of VER2 2 = 1"
    by (simp_all add: data_start_sector_of_def dir_size_of_def header_size_of_def SECTOR_SIZE_def)
  have sn: "sectors_needed 10 = 1" "sectors_needed 5000 = 3"
    by (simp_all add: sectors_needed_def SECTOR_SIZE_def)
  have ts: "total_sectors d = 4"
    using assms(2,3,4) by (auto simp: total_sectors_def sn)
  have dist: "distinct (map fst d)" "d \<noteq> []" using assms(2) by auto
  have bounds: "\<And>n file_data. (n, file_data) \<in> set d \<Longrightarrow>
           length file_data < 2 ^ 32 \<and> list_all is_ascii n"
    using assms(2,3,4) by (auto simp: is_ascii_def)
  have "create_img fs ''ver2'' img_file input_dir =
          (Inr True, fs\<lparr>fs_files := (fs_files fs)(img_file \<mapsto>
              archive_bytes VER2 (sort_key fst d))\<rparr>)"
    using assms(1) format_of_token_lower(2) dist(2) assms(5) dist(1) bounds
    by (rule create_img_ok) (simp_all add: ld ds ts)
  then have cr: "create_img fs ''ver2'' img_file input_dir = (Inr True, ?fs1)"
    by (simp only: sk)
  have f1: "fs_files ?fs1 img_file = Some ?S" by simp
  have det: "detect_img_format ?fs1 img_file = VER2"
    using f1 by (rule detect_archive_ver2)
  have cnt: "get_entry_count ?fs1 img_file VER2 = Inr 2"
    using archive_ver2_count [of ?ms] by (simp add: get_entry_count_ver2)
  have ok: "member_ok (?ms ! 0)" "member_ok (?ms ! 1)"
    using assms(3,4)
    by (auto simp: member_ok_def is_ascii_def valid_filename_def strip_def is_space_def)
  have ds': "data_start_sector_of VER2 (Suc (Suc 0)) = Suc 0"
    by (simp add: data_start_sector_of_def dir_size_of_def header_size_of_def SECTOR_SIZE_def)
  have so: "sector_of VER2 ?ms 0 = 1" "sector_of VER2 ?ms 1 = 2"
    using assms(3) by (simp_all add: sector_of_def ds' sn)
  have so1: "sector_of VER2 ?ms (Suc 0) = 2" using so(2) by simp
  have l0: "list_entry fnmatch None ?S 8 [] 0 = [(''a.dat'', 10, 1)]"
    using list_entry_member [of 0 ?ms VER2 fnmatch "[]"] ok(1) assms(3)
    by (simp add: so header_size_of_def)
  have l1: "list_entry fnmatch None ?S 8 [(''a.dat'', 10, 1)] 1
              = [(''a.dat'', 10, 1), (''b.dat'', 5000, 2)]"
    using list_entry_member [of 1 ?ms VER2 fnmatch "[(''a.dat'', 10, 1)]"] ok(2) assms(4)
    by (simp add: so so1 header_size_of_def)
  have li: "list_img_filtered fnmatch ?fs1 img_file None
              = Inr (True, [(''a.dat'', 10, 1), (''b.dat'', 5000, 2)])"
    by (simp add: list_img_filtered_def f1 det cnt Let_def upt_2 l0 l1 del: One_nat_def)
  have "a \<noteq> []" using assms(3) by auto
  then have pne: "payload ?ms \<noteq> []"
    using payload_nonempty [of 0 ?ms] by simp
  obtain Ra where Ra: "drop (sector_of VER2 ?ms 0 * SECTOR_SIZE) ?S = snd (?ms ! 0) @ Ra"
    using archive_payload_at [of 0 ?ms VER2] pne by auto
  obtain Rb where Rb: "drop (sector_of VER2 ?ms 1 * SECTOR_SIZE) ?S = snd (?ms ! 1) @ Rb"
    using archive_payload_at [of 1 ?ms VER2] pne by auto
  have pa: "take 10 (drop (1 * SECTOR_SIZE) ?S) = a"
    using Ra assms(3) by (simp add: so)
  have pb: "take 5000 (drop (2 * SECTOR_SIZE) ?S) = b"
    using Rb assms(4) by (simp add: so so1)
  from cr f1 li pa pb show ?thesis
    by (simp only: ld ds) blast
qed

theorem two_file_layout_witness:
  "dir_size_of VER2 2 = 72
   \<and> data_start_sector_of VER2 2 = 1
   \<and> (\<exists>fs' store.
         create_img
           \<lparr>fs_files = Map.empty,
            fs_dirs = [''in'' \<mapsto> [(''b.dat'', replicate 5000 (CHR ''y'')),
                                  (''a.dat'', replicate 10 (CHR ''x''))]]\<rparr>
           ''ver2'' ''t.img'' ''in'' = (Inr True, fs')
         \<and> fs_files fs' ''t.img'' = Some store
         \<and> list_img_filtered (\<lambda>name pat. True) fs' ''t.img'' None
             = Inr (True, [(''a.dat'', 10, 1), (''b.dat'', 5000, 2)])
         \<and> take 10 (drop (1 * SECTOR_SIZE) store) = replicate 10 (CHR ''x'')
         \<and> take 5000 (drop (2 * SECTOR_SIZE) store) = replicate 5000 (CHR ''y''))"
  using two_file_layout
    [of "\<lparr>fs_files = Map.empty,
          fs_dirs = [''in'' \<mapsto> [(''b.dat'', replicate 5000 (CHR ''y'')),
                                (''a.dat'', replicate 10 (CHR ''x''))]]\<rparr>"
        "''in''" "[(''b.dat'', replicate 5000 (CHR ''y'')), (''a.dat'', replicate 10 (CHR ''x''))]"
        "replicate 10 (CHR ''x'')" "replicate 5000 (CHR ''y'')" "''t.img''" "\<lambda>name pat. True"]
  by (simp add: isdir_def numeral_2_eq_2)

subsection \<open>\<^verbatim>\<open>rename_in_img\<close>\<close>



end
